theory Spec2Isabelle
  imports Main "HOL-Library.Word"
begin

unbundle bit_operations_syntax

section \<open>The Milkymist AC'97 controller (hw/milkymist-ac97.c)\<close>

text \<open>
  The device is a register file of eleven 32-bit words, two audio voices and four
  interrupt lines. The C functions are embedded one by one, with explicit state passing:
  every function takes the device state and returns the new one. Calls that leave the
  file (interrupt pulses, error reports, guest-memory accesses, voice reads and writes)
  are appended, in program order, to an event log kept in the state; the
  \<^verbatim>\<open>trace_*\<close> calls are diagnostics without any effect on the device and are left out.
\<close>

subsection \<open>Constants\<close>

type_synonym uint32_t = "32 word"

text \<open>A C \<^verbatim>\<open>int\<close>: the 32-bit pattern; \<^term>\<open>sint\<close> reads its value.\<close>

type_synonym c_int = "32 word"

definition R_AC97_CTRL :: nat where "R_AC97_CTRL = 0"
definition R_AC97_ADDR :: nat where "R_AC97_ADDR = 1"
definition R_AC97_DATAOUT :: nat where "R_AC97_DATAOUT = 2"
definition R_AC97_DATAIN :: nat where "R_AC97_DATAIN = 3"
definition R_D_CTRL :: nat where "R_D_CTRL = 4"
definition R_D_ADDR :: nat where "R_D_ADDR = 5"
definition R_D_REMAINING :: nat where "R_D_REMAINING = 6"
definition R_RESERVED :: nat where "R_RESERVED = 7"
definition R_U_CTRL :: nat where "R_U_CTRL = 8"
definition R_U_ADDR :: nat where "R_U_ADDR = 9"
definition R_U_REMAINING :: nat where "R_U_REMAINING = 10"
definition R_MAX :: nat where "R_MAX = 11"

definition AC97_CTRL_RQEN :: uint32_t where "AC97_CTRL_RQEN = push_bit 0 1"
definition AC97_CTRL_WRITE :: uint32_t where "AC97_CTRL_WRITE = push_bit 1 1"
definition CTRL_EN :: uint32_t where "CTRL_EN = push_bit 0 1"

subsection \<open>State\<close>

datatype irq_line = crrequest_irq | crreply_irq | dmar_irq | dmaw_irq

text \<open>
  What the device does to its collaborators. An error report carries the number the
  source prints; a memory access its guest address and length; a voice call the number
  of bytes asked for and the number the backend returned.
\<close>

datatype event =
    Irq_pulse irq_line
  | Error_report_read nat
  | Error_report_write nat
  | Mem_write uint32_t c_int
  | Mem_read uint32_t c_int
  | Aud_read c_int c_int
  | Aud_write c_int c_int

text \<open>
  \<^verbatim>\<open>struct MilkymistAC97State\<close>. The two voice handles are represented by the activity
  the backend holds for them (what \<^verbatim>\<open>AUD_set_active_in/out\<close> last set); \<open>backend\<close> is
  the state of the host audio backend, of any type; \<open>events\<close> is the log.
\<close>

record 'b MilkymistAC97State =
  regs :: "uint32_t list"
  voice_in :: bool
  voice_out :: bool
  events :: "event list"
  backend :: 'b

subsection \<open>Collaborators\<close>

text \<open>Modelled from the spec: \<^verbatim>\<open>AUD_set_active_out\<close> (audio/audio.c) is missing; each voice
  exposes \<open>set_active(bool)\<close>, which sets the activity of the output voice.\<close>

definition AUD_set_active_out :: "'b MilkymistAC97State \<Rightarrow> bool \<Rightarrow> 'b MilkymistAC97State" where
  "AUD_set_active_out s on = s\<lparr>voice_out := on\<rparr>"

text \<open>Modelled from the spec: \<^verbatim>\<open>AUD_set_active_in\<close> (audio/audio.c) is missing; each voice
  exposes \<open>set_active(bool)\<close>, which sets the activity of the input voice.\<close>

definition AUD_set_active_in :: "'b MilkymistAC97State \<Rightarrow> bool \<Rightarrow> 'b MilkymistAC97State" where
  "AUD_set_active_in s on = s\<lparr>voice_in := on\<rparr>"

text \<open>Modelled from the spec: \<^verbatim>\<open>qemu_irq_pulse\<close> (hw/irq.h) is missing; a pulse is an edge
  signal (raise then immediately lower) delivered to the interrupt controller, one event
  on the line.\<close>

definition qemu_irq_pulse :: "irq_line \<Rightarrow> 'b MilkymistAC97State \<Rightarrow> 'b MilkymistAC97State" where
  "qemu_irq_pulse l s = s\<lparr>events := events s @ [Irq_pulse l]\<rparr>"

text \<open>Modelled from the spec: \<^verbatim>\<open>error_report\<close> (qemu-error.h) is missing; the
  unknown-register condition is reported to the operator and alters nothing else.\<close>

definition error_report :: "event \<Rightarrow> 'b MilkymistAC97State \<Rightarrow> 'b MilkymistAC97State" where
  "error_report e s = s\<lparr>events := events s @ [e]\<rparr>"

subsection \<open>Voices follow the enable bits\<close>

definition update_voices :: "'b MilkymistAC97State \<Rightarrow> 'b MilkymistAC97State" where
  "update_voices s =
     (let s1 = (if regs s ! R_D_CTRL AND CTRL_EN \<noteq> 0
                then AUD_set_active_out s True
                else AUD_set_active_out s False)
      in if regs s1 ! R_U_CTRL AND CTRL_EN \<noteq> 0
         then AUD_set_active_in s1 True
         else AUD_set_active_in s1 False)"

subsection \<open>Register reads and writes\<close>

text \<open>
  The byte address has type \<^verbatim>\<open>target_phys_addr_t\<close>, an unsigned integer whose width is
  fixed outside this file: a word of any length here. \<^verbatim>\<open>addr >>= 2\<close> is the logical
  shift. The unknown-register report of a read prints \<^verbatim>\<open>addr << 2\<close>, that of a write
  prints the shifted \<^verbatim>\<open>addr\<close>.
\<close>

definition ac97_read :: "'b MilkymistAC97State \<Rightarrow> 'a::len word \<Rightarrow> uint32_t \<times> 'b MilkymistAC97State" where
  "ac97_read s addr0 =
     (let addr = drop_bit 2 addr0; i = unat addr
      in if i = R_AC97_CTRL \<or> i = R_AC97_ADDR \<or> i = R_AC97_DATAOUT \<or> i = R_AC97_DATAIN
            \<or> i = R_D_CTRL \<or> i = R_D_ADDR \<or> i = R_D_REMAINING
            \<or> i = R_U_CTRL \<or> i = R_U_ADDR \<or> i = R_U_REMAINING
         then (regs s ! i, s)
         else (0, error_report (Error_report_read (unat (push_bit 2 addr))) s))"

definition ac97_write :: "'b MilkymistAC97State \<Rightarrow> 'a::len word \<Rightarrow> uint32_t \<Rightarrow> 'b MilkymistAC97State" where
  "ac97_write s addr0 val =
     (let addr = drop_bit 2 addr0; i = unat addr
      in if i = R_AC97_CTRL then
           (let s1 = (if val AND AC97_CTRL_RQEN \<noteq> 0
                      then (if val AND AC97_CTRL_WRITE \<noteq> 0
                            then qemu_irq_pulse crrequest_irq s
                            else qemu_irq_pulse crreply_irq s)
                      else s)
            in s1\<lparr>regs := (regs s1)[i := val AND NOT AC97_CTRL_RQEN]\<rparr>)
         else if i = R_D_CTRL \<or> i = R_U_CTRL then
           update_voices (s\<lparr>regs := (regs s)[i := val]\<rparr>)
         else if i = R_AC97_ADDR \<or> i = R_AC97_DATAOUT \<or> i = R_AC97_DATAIN
                 \<or> i = R_D_ADDR \<or> i = R_D_REMAINING
                 \<or> i = R_U_ADDR \<or> i = R_U_REMAINING then
           s\<lparr>regs := (regs s)[i := val]\<rparr>
         else error_report (Error_report_write (unat addr)) s)"

subsection \<open>Reset and restore\<close>

definition milkymist_ac97_reset :: "'b MilkymistAC97State \<Rightarrow> 'b MilkymistAC97State" where
  "milkymist_ac97_reset s =
     (let s1 = s\<lparr>regs := fold (\<lambda>i r. r[i := 0]) [0..<R_MAX] (regs s)\<rparr>;
          s2 = AUD_set_active_in s1 False
      in AUD_set_active_out s2 False)"

definition ac97_post_load :: "'b MilkymistAC97State \<Rightarrow> c_int \<Rightarrow> c_int \<times> 'b MilkymistAC97State" where
  "ac97_post_load s version_id = (0, update_voices s)"


subsection \<open>The capacity callbacks\<close>

text \<open>Modelled from the spec: the macro \<^verbatim>\<open>audio_MIN\<close> (audio/audio.h) is missing;
  \<open>want = min(remaining, available_or_free)\<close>. At both uses one operand is unsigned
  (\<^verbatim>\<open>uint32_t\<close>, \<^verbatim>\<open>size_t\<close>), so C compares the operands as unsigned values; the
  result is stored in an \<^verbatim>\<open>int\<close>, which keeps the 32-bit pattern.\<close>

definition audio_MIN :: "32 word \<Rightarrow> 32 word \<Rightarrow> 32 word" where
  "audio_MIN a b = (if a > b then b else a)"

text \<open>\<^verbatim>\<open>sizeof(buf)\<close> for \<^verbatim>\<open>uint8_t buf[4096]\<close>.\<close>

definition sizeof_buf :: "32 word" where
  "sizeof_buf = 4096"

text \<open>Modelled from the spec: \<^verbatim>\<open>cpu_physical_memory_write\<close> and
  \<^verbatim>\<open>cpu_physical_memory_read\<close> (the guest-memory bus) are missing; byte-exact
  \<open>read(phys_addr, buf, len)\<close> and \<open>write(phys_addr, buf, len)\<close>. The controller only
  relays the buffer, so an access is recorded by its address and length; the bus is
  outside the device, and an access leaves the device's registers as they are.\<close>

definition cpu_physical_memory_write ::
  "uint32_t \<Rightarrow> c_int \<Rightarrow> 'b MilkymistAC97State \<Rightarrow> 'b MilkymistAC97State" where
  "cpu_physical_memory_write addr len s = s\<lparr>events := events s @ [Mem_write addr len]\<rparr>"

definition cpu_physical_memory_read ::
  "uint32_t \<Rightarrow> c_int \<Rightarrow> 'b MilkymistAC97State \<Rightarrow> 'b MilkymistAC97State" where
  "cpu_physical_memory_read addr len s = s\<lparr>events := events s @ [Mem_read addr len]\<rparr>"

text \<open>Modelled from the spec: \<^verbatim>\<open>AUD_read\<close> and \<^verbatim>\<open>AUD_write\<close> (audio/audio.c) are missing;
  the controller's callback calls the voice's own bounded \<open>read\<close>/\<open>write\<close> primitive to
  move bytes, and the backend decides how many it moves. The backend is a parameter: a
  function from its own state and the number of bytes asked for to the number it
  returns and its next state. A call records both numbers in the log.\<close>

type_synonym 'b voice_fn = "'b \<Rightarrow> c_int \<Rightarrow> c_int \<times> 'b"

text \<open>Modelled from the spec: what \<^verbatim>\<open>AUD_read\<close> and \<^verbatim>\<open>AUD_write\<close> promise (a voice
  returns fewer bytes, including 0, than requested, or all of them), and what the
  callbacks rely on without checking: asked for at most \<^verbatim>\<open>sizeof(buf)\<close> bytes, a voice
  returns a number between 0 and the number asked for. The comparison is of unsigned
  values, which for such sizes is the comparison of the \<^verbatim>\<open>int\<close>s.\<close>

definition voice_contract :: "'b voice_fn \<Rightarrow> bool" where
  "voice_contract f = (\<forall>b n. n \<le> sizeof_buf \<longrightarrow> fst (f b n) \<le> n)"

definition AUD_read_call ::
  "'b voice_fn \<Rightarrow> c_int \<Rightarrow> 'b MilkymistAC97State \<Rightarrow> c_int \<times> 'b MilkymistAC97State" where
  "AUD_read_call AUD_read sz s =
     (let (n, b) = AUD_read (backend s) sz
      in (n, s\<lparr>events := events s @ [Aud_read sz n], backend := b\<rparr>))"

definition AUD_write_call ::
  "'b voice_fn \<Rightarrow> c_int \<Rightarrow> 'b MilkymistAC97State \<Rightarrow> c_int \<times> 'b MilkymistAC97State" where
  "AUD_write_call AUD_write sz s =
     (let (n, b) = AUD_write (backend s) sz
      in (n, s\<lparr>events := events s @ [Aud_write sz n], backend := b\<rparr>))"

text \<open>
  The \<^verbatim>\<open>while (temp)\<close> loop of \<^verbatim>\<open>ac97_in_cb\<close>, on the locals \<open>temp\<close>, \<open>addr\<close> and
  \<open>transferred\<close>. Nothing in the loop bounds what the backend returns, so the loop
  need not end: \<open>None\<close> is the run that never leaves it. \<open>temp\<close> and \<open>transferred\<close>
  are \<^verbatim>\<open>int\<close>s; their arithmetic is modelled on the 32-bit pattern, which is the
  value C computes whenever the \<^verbatim>\<open>int\<close> does not overflow: always, when the callback is
  given a byte count that is not negative and the voice keeps its contract.
\<close>

partial_function (option) in_cb_loop ::
  "'b voice_fn \<Rightarrow> 'b MilkymistAC97State \<Rightarrow> c_int \<Rightarrow> uint32_t \<Rightarrow> c_int
     \<Rightarrow> ('b MilkymistAC97State \<times> uint32_t \<times> c_int) option" where
  "in_cb_loop AUD_read s temp addr transferred =
     (if temp = 0 then Some (s, addr, transferred)
      else
        let to_copy = audio_MIN temp sizeof_buf;
            r = AUD_read_call AUD_read to_copy s;
            acquired = fst r
        in if acquired = 0 then Some (snd r, addr, transferred)
           else in_cb_loop AUD_read (cpu_physical_memory_write addr acquired (snd r))
                  (temp - acquired) (addr + acquired) (transferred + acquired))"

definition ac97_in_cb ::
  "'b voice_fn \<Rightarrow> 'b MilkymistAC97State \<Rightarrow> c_int \<Rightarrow> 'b MilkymistAC97State option" where
  "ac97_in_cb AUD_read s avail_b =
     (let remaining = regs s ! R_U_REMAINING;
          temp = audio_MIN remaining avail_b;
          addr = regs s ! R_U_ADDR
      in if temp = 0 then Some s
         else
           case in_cb_loop AUD_read s temp addr 0 of
             None \<Rightarrow> None
           | Some (s1, addr', transferred) \<Rightarrow>
               let s2 = s1\<lparr>regs := (regs s1)[R_U_ADDR := addr']\<rparr>;
                   s3 = s2\<lparr>regs := (regs s2)[R_U_REMAINING := regs s2 ! R_U_REMAINING - transferred]\<rparr>
               in Some (if regs s3 ! R_U_CTRL AND CTRL_EN \<noteq> 0 \<and> regs s3 ! R_U_REMAINING = 0
                        then qemu_irq_pulse dmaw_irq s3
                        else s3))"

text \<open>The loop of \<^verbatim>\<open>ac97_out_cb\<close>: guest memory is read first, then the voice is written.\<close>

partial_function (option) out_cb_loop ::
  "'b voice_fn \<Rightarrow> 'b MilkymistAC97State \<Rightarrow> c_int \<Rightarrow> uint32_t \<Rightarrow> c_int
     \<Rightarrow> ('b MilkymistAC97State \<times> uint32_t \<times> c_int) option" where
  "out_cb_loop AUD_write s temp addr transferred =
     (if temp = 0 then Some (s, addr, transferred)
      else
        let to_copy = audio_MIN temp sizeof_buf;
            r = AUD_write_call AUD_write to_copy (cpu_physical_memory_read addr to_copy s);
            copied = fst r
        in if copied = 0 then Some (snd r, addr, transferred)
           else out_cb_loop AUD_write (snd r)
                  (temp - copied) (addr + copied) (transferred + copied))"

definition ac97_out_cb ::
  "'b voice_fn \<Rightarrow> 'b MilkymistAC97State \<Rightarrow> c_int \<Rightarrow> 'b MilkymistAC97State option" where
  "ac97_out_cb AUD_write s free_b =
     (let remaining = regs s ! R_D_REMAINING;
          temp = audio_MIN remaining free_b;
          addr = regs s ! R_D_ADDR
      in if temp = 0 then Some s
         else
           case out_cb_loop AUD_write s temp addr 0 of
             None \<Rightarrow> None
           | Some (s1, addr', transferred) \<Rightarrow>
               let s2 = s1\<lparr>regs := (regs s1)[R_D_ADDR := addr']\<rparr>;
                   s3 = s2\<lparr>regs := (regs s2)[R_D_REMAINING := regs s2 ! R_D_REMAINING - transferred]\<rparr>
               in Some (if regs s3 ! R_D_CTRL AND CTRL_EN \<noteq> 0 \<and> regs s3 ! R_D_REMAINING = 0
                        then qemu_irq_pulse dmar_irq s3
                        else s3))"

subsection \<open>Observing a run\<close>

text \<open>
  The two DMA channels and their registers, interrupt line and callback. A capacity
  callback is \<^verbatim>\<open>ac97_out_cb\<close> for playback and \<^verbatim>\<open>ac97_in_cb\<close> for record; a sequence
  of callbacks runs them one after the other, each on the state the previous one left.
\<close>

datatype channel = Playback | Record

definition R_CTRL_of :: "channel \<Rightarrow> nat" where
  "R_CTRL_of ch = (case ch of Playback \<Rightarrow> R_D_CTRL | Record \<Rightarrow> R_U_CTRL)"

definition R_ADDR_of :: "channel \<Rightarrow> nat" where
  "R_ADDR_of ch = (case ch of Playback \<Rightarrow> R_D_ADDR | Record \<Rightarrow> R_U_ADDR)"

definition R_REMAINING_of :: "channel \<Rightarrow> nat" where
  "R_REMAINING_of ch = (case ch of Playback \<Rightarrow> R_D_REMAINING | Record \<Rightarrow> R_U_REMAINING)"

definition complete_irq :: "channel \<Rightarrow> irq_line" where
  "complete_irq ch = (case ch of Playback \<Rightarrow> dmar_irq | Record \<Rightarrow> dmaw_irq)"

definition capacity_cb ::
  "'b voice_fn \<Rightarrow> 'b voice_fn \<Rightarrow> channel \<Rightarrow> 'b MilkymistAC97State \<Rightarrow> c_int
     \<Rightarrow> 'b MilkymistAC97State option" where
  "capacity_cb AUD_read AUD_write ch s n =
     (case ch of Playback \<Rightarrow> ac97_out_cb AUD_write s n | Record \<Rightarrow> ac97_in_cb AUD_read s n)"

fun run_cbs ::
  "'b voice_fn \<Rightarrow> 'b voice_fn \<Rightarrow> 'b MilkymistAC97State \<Rightarrow> (channel \<times> c_int) list
     \<Rightarrow> 'b MilkymistAC97State option" where
  "run_cbs AUD_read AUD_write s [] = Some s"
| "run_cbs AUD_read AUD_write s (c # cs) =
     (case capacity_cb AUD_read AUD_write (fst c) s (snd c) of
        None \<Rightarrow> None
      | Some s' \<Rightarrow> run_cbs AUD_read AUD_write s' cs)"

text \<open>
  The bytes a stretch of the log moved on a channel are the bytes its voice returned:
  what \<^verbatim>\<open>AUD_read\<close> acquired for record, what \<^verbatim>\<open>AUD_write\<close> copied for playback. These
  are the numbers the callbacks add to \<open>addr\<close> and \<open>transferred\<close>.
\<close>

fun voice_bytes :: "channel \<Rightarrow> event \<Rightarrow> nat" where
  "voice_bytes Record (Aud_read sz n) = unat n"
| "voice_bytes Playback (Aud_write sz n) = unat n"
| "voice_bytes ch e = 0"

definition bytes_moved :: "channel \<Rightarrow> event list \<Rightarrow> nat" where
  "bytes_moved ch evs = sum_list (map (voice_bytes ch) evs)"

fun pulse_of :: "event \<Rightarrow> irq_line list" where
  "pulse_of (Irq_pulse l) = [l]"
| "pulse_of e = []"

definition pulses :: "event list \<Rightarrow> irq_line list" where
  "pulses evs = concat (map pulse_of evs)"

text \<open>The call a channel makes to its voice, and the backend function it reaches.\<close>

definition voice_call :: "channel \<Rightarrow> c_int \<Rightarrow> c_int \<Rightarrow> event" where
  "voice_call ch sz n = (case ch of Playback \<Rightarrow> Aud_write sz n | Record \<Rightarrow> Aud_read sz n)"

definition voice_of :: "'b voice_fn \<Rightarrow> 'b voice_fn \<Rightarrow> channel \<Rightarrow> 'b voice_fn" where
  "voice_of AUD_read AUD_write ch = (case ch of Playback \<Rightarrow> AUD_write | Record \<Rightarrow> AUD_read)"

text \<open>A state to run the functions on: playback programmed at 0x1000 for 8192 bytes and
  enabled, record programmed at 0x9000 for 10 bytes and not enabled. The two voice flags
  are stale on purpose (the opposite of the enable bits). The backend has no state of
  its own, and \<open>accept_all\<close> is a voice that moves every byte it is asked for.\<close>

definition accept_all :: "unit voice_fn" where
  "accept_all b n = (n, b)"

definition sample_state :: "unit MilkymistAC97State" where
  "sample_state =
     \<lparr>regs = [2, 1, 2, 3, 1, 4096, 8192, 7, 0, 36864, 10],
      voice_in = True, voice_out = False, events = [], backend = ()\<rparr>"

section \<open>Basic facts\<close>

lemmas reg_defs =
  R_AC97_CTRL_def R_AC97_ADDR_def R_AC97_DATAOUT_def R_AC97_DATAIN_def
  R_D_CTRL_def R_D_ADDR_def R_D_REMAINING_def R_RESERVED_def
  R_U_CTRL_def R_U_ADDR_def R_U_REMAINING_def R_MAX_def

lemmas bit_defs = AC97_CTRL_RQEN_def AC97_CTRL_WRITE_def CTRL_EN_def

lemma CTRL_EN_bit: "(w AND CTRL_EN \<noteq> 0) = bit w 0" for w :: uint32_t
  by (simp add: CTRL_EN_def and_one_eq mod_2_eq_odd bit_0)

lemma RQEN_bit: "(w AND AC97_CTRL_RQEN \<noteq> 0) = bit w 0" for w :: uint32_t
  by (simp add: AC97_CTRL_RQEN_def and_one_eq mod_2_eq_odd bit_0)

lemma WRITE_bit: "(w AND AC97_CTRL_WRITE \<noteq> 0) = bit w 1" for w :: uint32_t
proof -
  have "w AND push_bit 1 1 = (if bit w 1 then push_bit 1 1 else 0)"
    by (rule bit_word_eqI) (auto simp: bit_simps)
  then show ?thesis by (simp add: AC97_CTRL_WRITE_def)
qed

lemma bit_clear_RQEN: "bit (v AND NOT AC97_CTRL_RQEN) n = (0 < n \<and> bit v n)" for v :: uint32_t
proof -
  have "bit (v AND NOT 1) n = (bit v n \<and> n \<noteq> 0)"
    unfolding bit_and_iff bit_not_iff bit_1_iff by (auto dest: bit_imp_possible_bit)
  then show ?thesis by (auto simp add: AC97_CTRL_RQEN_def)
qed

lemma update_voices_regs: "regs (update_voices s) = regs s"
  by (simp add: update_voices_def AUD_set_active_out_def AUD_set_active_in_def Let_def)

lemma update_voices_events: "events (update_voices s) = events s"
  by (simp add: update_voices_def AUD_set_active_out_def AUD_set_active_in_def Let_def)

lemma update_voices_backend: "backend (update_voices s) = backend s"
  by (simp add: update_voices_def AUD_set_active_out_def AUD_set_active_in_def Let_def)

lemma update_voices_out: "voice_out (update_voices s) = bit (regs s ! R_D_CTRL) 0"
  by (simp add: update_voices_def AUD_set_active_out_def AUD_set_active_in_def Let_def CTRL_EN_bit)

lemma update_voices_in: "voice_in (update_voices s) = bit (regs s ! R_U_CTRL) 0"
  by (simp add: update_voices_def AUD_set_active_out_def AUD_set_active_in_def Let_def CTRL_EN_bit)

text \<open>The reset loop zeroes the first \<open>n\<close> entries and keeps the rest.\<close>

lemma fold_zero_upt:
  "fold (\<lambda>i r. r[i := 0]) [0..<n] xs = replicate (min n (length xs)) (0::uint32_t) @ drop n xs"
proof (induction n)
  case 0
  then show ?case by simp
next
  case (Suc n)
  show ?case
  proof (cases "n < length xs")
    case True
    then have "(replicate n 0 @ drop n xs)[n := 0] = replicate (Suc n) (0::uint32_t) @ drop (Suc n) xs"
      by (simp add: list_update_append replicate_append_same upd_conv_take_nth_drop Cons_nth_drop_Suc)
    with True Suc show ?thesis by (simp add: min_def)
  next
    case False
    with Suc show ?thesis by (simp add: min_def list_update_beyond)
  qed
qed

lemma reset_regs:
  "regs (milkymist_ac97_reset s) = replicate (min R_MAX (length (regs s))) 0 @ drop R_MAX (regs s)"
  by (simp add: milkymist_ac97_reset_def Let_def AUD_set_active_in_def AUD_set_active_out_def fold_zero_upt)

lemma reset_twice: "milkymist_ac97_reset (milkymist_ac97_reset s) = milkymist_ac97_reset s"
proof -
  have "fold (\<lambda>i r. r[i := 0]) [0..<R_MAX] (fold (\<lambda>i r. r[i := 0]) [0..<R_MAX] xs)
      = fold (\<lambda>i r. r[i := 0]) [0..<R_MAX] xs" for xs :: "uint32_t list"
    by (simp add: fold_zero_upt min_def replicate_add [symmetric])
  then show ?thesis
    by (simp add: milkymist_ac97_reset_def Let_def AUD_set_active_in_def AUD_set_active_out_def)
qed

section \<open>The register file\<close>

text \<open>
  C3. For every value written to the AC97_CTRL register, a subsequent read of that
  register returns the written value with the request-enable bit (bit 0) cleared,
  whether or not the written value had that bit set. The register is reached by every
  byte address whose word index \<^verbatim>\<open>addr >> 2\<close> is 0; the register array has its
  \<^verbatim>\<open>R_MAX\<close> entries.
\<close>

theorem ctrl_read_after_write_clears_rqen:
  fixes a :: "'a::len word" and a' :: "'c::len word"
  assumes "length (regs s) = R_MAX"
    and "unat (drop_bit 2 a) = R_AC97_CTRL" and "unat (drop_bit 2 a') = R_AC97_CTRL"
  shows "fst (ac97_read (ac97_write s a v) a') = v AND NOT AC97_CTRL_RQEN
    \<and> \<not> bit (fst (ac97_read (ac97_write s a v) a')) 0
    \<and> (\<forall>n. 0 < n \<longrightarrow> bit (fst (ac97_read (ac97_write s a v) a')) n = bit v n)"
proof -
  have r: "fst (ac97_read (ac97_write s a v) a') = v AND NOT AC97_CTRL_RQEN"
    using assms by (simp add: ac97_read_def ac97_write_def Let_def qemu_irq_pulse_def reg_defs)
  show ?thesis unfolding r using bit_clear_RQEN [of v] by blast
qed

theorem ctrl_read_after_write_clears_rqen_witness:
  "length (regs sample_state) = R_MAX
   \<and> unat (drop_bit 2 (3 :: 32 word)) = R_AC97_CTRL \<and> unat (drop_bit 2 (0 :: 64 word)) = R_AC97_CTRL
   \<and> fst (ac97_read (ac97_write sample_state (3 :: 32 word) 0xFFFFFFFF) (0 :: 64 word)) = 0xFFFFFFFE"
  using ctrl_read_after_write_clears_rqen [of sample_state "3 :: 32 word" "0 :: 64 word" "0xFFFFFFFF"]
  by (simp add: reg_defs bit_defs sample_state_def)

text \<open>
  C4. Writing AC97_CTRL with request-enable = 1 and direction = 0 pulses only the
  command-reply line, exactly once; with request-enable = 1 and direction = 1 only the
  command-request line, exactly once; with request-enable = 0 neither line. The pulse
  is made by the write itself: it is what the write adds to the log.
\<close>

theorem ctrl_write_pulses:
  fixes a :: "'a::len word"
  assumes "unat (drop_bit 2 a) = R_AC97_CTRL"
  shows "(bit v 0 \<and> \<not> bit v 1 \<longrightarrow> events (ac97_write s a v) = events s @ [Irq_pulse crreply_irq])
    \<and> (bit v 0 \<and> bit v 1 \<longrightarrow> events (ac97_write s a v) = events s @ [Irq_pulse crrequest_irq])
    \<and> (\<not> bit v 0 \<longrightarrow> events (ac97_write s a v) = events s)"
  using assms
  by (simp add: ac97_write_def Let_def qemu_irq_pulse_def RQEN_bit WRITE_bit)

theorem ctrl_write_pulses_witness:
  "unat (drop_bit 2 (0 :: 32 word)) = R_AC97_CTRL
   \<and> events (ac97_write sample_state (0 :: 32 word) 1) = [Irq_pulse crreply_irq]
   \<and> events (ac97_write sample_state (0 :: 32 word) 3) = [Irq_pulse crrequest_irq]
   \<and> events (ac97_write sample_state (0 :: 32 word) 2) = []"
  using ctrl_write_pulses [of "0 :: 32 word" 1 sample_state]
    ctrl_write_pulses [of "0 :: 32 word" 3 sample_state]
    ctrl_write_pulses [of "0 :: 32 word" 2 sample_state]
  by (simp add: reg_defs sample_state_def)

text \<open>
  C6. For every register index outside the defined set (the reserved index 7 or any
  index from \<^verbatim>\<open>R_MAX\<close> on), a read reports the unknown register, returns 0 and changes
  no register; a write reports the unknown register and leaves every register
  unchanged. In both cases the report is the only difference between the states.
\<close>

theorem unknown_register_access:
  fixes a :: "'a::len word"
  assumes "unat (drop_bit 2 a) = R_RESERVED \<or> R_MAX \<le> unat (drop_bit 2 a)"
  shows "ac97_read s a
      = (0, s\<lparr>events := events s @ [Error_report_read (unat (push_bit 2 (drop_bit 2 a)))]\<rparr>)
    \<and> regs (snd (ac97_read s a)) = regs s
    \<and> ac97_write s a v = s\<lparr>events := events s @ [Error_report_write (unat (drop_bit 2 a))]\<rparr>
    \<and> regs (ac97_write s a v) = regs s"
  using assms
  by (auto simp add: ac97_read_def ac97_write_def Let_def error_report_def reg_defs)

theorem unknown_register_access_witness:
  "(unat (drop_bit 2 (28 :: 32 word)) = R_RESERVED \<or> R_MAX \<le> unat (drop_bit 2 (28 :: 32 word)))
   \<and> ac97_read sample_state (28 :: 32 word) = (0, sample_state\<lparr>events := [Error_report_read 28]\<rparr>)
   \<and> ac97_write sample_state (28 :: 32 word) 5 = sample_state\<lparr>events := [Error_report_write 7]\<rparr>"
  using unknown_register_access [of "28 :: 32 word" sample_state 5]
  by (simp add: reg_defs sample_state_def)

section \<open>Voices and lifecycle\<close>

text \<open>
  C7. After any write to either channel's control register (D_CTRL or U_CTRL), the raw
  written value is stored and both voices' activity is recomputed from the current
  enable bits: the playback voice is active iff bit 0 of D_CTRL is set and the record
  voice is active iff bit 0 of U_CTRL is set, for both channels and not only the one
  written.
\<close>

theorem channel_ctrl_write:
  fixes a :: "'a::len word"
  assumes "length (regs s) = R_MAX"
    and "unat (drop_bit 2 a) = R_D_CTRL \<or> unat (drop_bit 2 a) = R_U_CTRL"
  shows "regs (ac97_write s a v) = (regs s)[unat (drop_bit 2 a) := v]
    \<and> regs (ac97_write s a v) ! unat (drop_bit 2 a) = v
    \<and> voice_out (ac97_write s a v) = bit (regs (ac97_write s a v) ! R_D_CTRL) 0
    \<and> voice_in (ac97_write s a v) = bit (regs (ac97_write s a v) ! R_U_CTRL) 0"
  using assms
  by (auto simp add: ac97_write_def Let_def update_voices_regs update_voices_out update_voices_in reg_defs)

theorem channel_ctrl_write_witness:
  "length (regs sample_state) = R_MAX
   \<and> (unat (drop_bit 2 (32 :: 32 word)) = R_D_CTRL \<or> unat (drop_bit 2 (32 :: 32 word)) = R_U_CTRL)
   \<and> regs (ac97_write sample_state (32 :: 32 word) 1) = [2, 1, 2, 3, 1, 4096, 8192, 7, 1, 36864, 10]
   \<and> voice_out (ac97_write sample_state (32 :: 32 word) 1)
   \<and> voice_in (ac97_write sample_state (32 :: 32 word) 1)"
  using channel_ctrl_write [of sample_state "32 :: 32 word" 1]
  by (simp add: reg_defs sample_state_def bit_0)

text \<open>
  C8. For every persisted register snapshot, the restore step (\<^verbatim>\<open>ac97_post_load\<close>)
  leaves all register values exactly equal to the snapshot and sets each voice's
  activity from the restored enable bits alone: playback active iff bit 0 of D_CTRL,
  record active iff bit 0 of U_CTRL (so with D_CTRL enable = 1 and U_CTRL enable = 0
  the playback voice is active and the record voice is not). It returns 0 and reports
  nothing.
\<close>

theorem post_load_recomputes_voices:
  "fst (ac97_post_load s version_id) = 0
   \<and> regs (snd (ac97_post_load s version_id)) = regs s
   \<and> events (snd (ac97_post_load s version_id)) = events s
   \<and> voice_out (snd (ac97_post_load s version_id)) = bit (regs s ! R_D_CTRL) 0
   \<and> voice_in (snd (ac97_post_load s version_id)) = bit (regs s ! R_U_CTRL) 0"
  by (simp add: ac97_post_load_def update_voices_regs update_voices_out update_voices_in
      update_voices_events)

text \<open>
  C9. Reset sets every register (all \<^verbatim>\<open>R_MAX\<close> indices) to zero and deactivates both
  voices, and resetting any number of times more gives the same state as one reset.
\<close>

theorem reset_zeroes_and_is_idempotent:
  assumes "length (regs s) = R_MAX"
  shows "regs (milkymist_ac97_reset s) = replicate R_MAX 0
   \<and> (\<forall>i<R_MAX. regs (milkymist_ac97_reset s) ! i = 0)
   \<and> \<not> voice_in (milkymist_ac97_reset s) \<and> \<not> voice_out (milkymist_ac97_reset s)
   \<and> (milkymist_ac97_reset ^^ Suc n) s = milkymist_ac97_reset s"
proof -
  have "(milkymist_ac97_reset ^^ Suc n) s = milkymist_ac97_reset s"
    by (induction n) (simp_all add: reset_twice)
  moreover have "\<not> voice_in (milkymist_ac97_reset s) \<and> \<not> voice_out (milkymist_ac97_reset s)"
    by (simp add: milkymist_ac97_reset_def Let_def AUD_set_active_in_def AUD_set_active_out_def)
  moreover have "regs (milkymist_ac97_reset s) = replicate R_MAX 0"
    using assms by (simp add: reset_regs)
  ultimately show ?thesis by simp
qed

theorem reset_zeroes_and_is_idempotent_witness:
  "length (regs sample_state) = R_MAX
   \<and> regs (milkymist_ac97_reset sample_state) = [0, 0, 0, 0, 0, 0, 0, 0, 0, 0, 0]
   \<and> \<not> voice_in (milkymist_ac97_reset sample_state)
   \<and> \<not> voice_out (milkymist_ac97_reset sample_state)
   \<and> (milkymist_ac97_reset ^^ Suc 2) sample_state = milkymist_ac97_reset sample_state"
proof -
  have h: "length (regs sample_state) = R_MAX"
    by (simp add: sample_state_def R_MAX_def)
  have r: "replicate R_MAX (0::uint32_t) = [0, 0, 0, 0, 0, 0, 0, 0, 0, 0, 0]"
    by (simp add: R_MAX_def numeral_eq_Suc)
  show ?thesis
    using h reset_zeroes_and_is_idempotent [OF h, of 2] unfolding r by blast
qed

section \<open>The transfer loops\<close>

subsection \<open>Counting on the log\<close>

lemma bytes_moved_simps [simp]:
  "bytes_moved ch [] = 0"
  "bytes_moved ch (e # evs) = voice_bytes ch e + bytes_moved ch evs"
  "bytes_moved ch (evs @ evs') = bytes_moved ch evs + bytes_moved ch evs'"
  by (simp_all add: bytes_moved_def)

lemma pulses_simps [simp]:
  "pulses [] = []"
  "pulses (e # evs) = pulse_of e @ pulses evs"
  "pulses (evs @ evs') = pulses evs @ pulses evs'"
  by (simp_all add: pulses_def)

subsection \<open>Minimum and word arithmetic\<close>

lemma audio_MIN_le1: "audio_MIN a b \<le> a"
  by (auto simp add: audio_MIN_def)

lemma audio_MIN_le2: "audio_MIN a b \<le> b"
  by (auto simp add: audio_MIN_def)

lemma audio_MIN_nonzero: "a \<noteq> 0 \<Longrightarrow> b \<noteq> 0 \<Longrightarrow> audio_MIN a b \<noteq> 0"
  by (simp add: audio_MIN_def)

lemma sizeof_buf_nonzero: "sizeof_buf \<noteq> 0"
  by (simp add: sizeof_buf_def)

lemma word_step:
  fixes temp acq m :: "32 word"
  assumes "acq \<le> temp" "m \<le> temp - acq"
  shows "acq + m \<le> temp" "unat (acq + m) = unat acq + unat m"
  using assms by unat_arith+

lemma word_decr:
  fixes temp acq :: "32 word"
  assumes "acq \<le> temp" "acq \<noteq> 0"
  shows "unat (temp - acq) < unat temp"
  using assms by unat_arith

subsection \<open>The loops end\<close>

text \<open>
  For a voice that keeps its contract each loop ends: \<open>temp\<close> goes down by what the voice
  returned, which is not zero and not more than \<open>temp\<close>. The result is the same on every
  state that holds the same backend state, since the loops read nothing else of it.
\<close>

lemma in_cb_loop_run:
  fixes AUD_read :: "'b voice_fn"
  assumes ok: "voice_contract AUD_read"
  shows "\<exists>m evs b'.
          (\<forall>s tr. backend s = b \<longrightarrow> in_cb_loop AUD_read s temp addr tr
            = Some (s\<lparr>events := events s @ evs, backend := b'\<rparr>, addr + m, tr + m))
          \<and> m \<le> temp
          \<and> bytes_moved Record evs = unat m \<and> bytes_moved Playback evs = 0
          \<and> pulses evs = []
          \<and> (temp = 0 \<longrightarrow> evs = [] \<and> b' = b)
          \<and> (temp \<noteq> 0 \<longrightarrow>
                Aud_read (audio_MIN temp sizeof_buf) (fst (AUD_read b (audio_MIN temp sizeof_buf))) \<in> set evs
                \<and> (m = 0) = (fst (AUD_read b (audio_MIN temp sizeof_buf)) = 0))"
proof (induction "unat temp" arbitrary: b temp addr rule: less_induct)
  case less
  show ?case
  proof (cases "temp = 0")
    case True
    have "in_cb_loop AUD_read s temp addr tr = Some (s\<lparr>events := events s @ [], backend := b\<rparr>, addr + 0, tr + 0)"
      if "backend s = b" for s :: "'b MilkymistAC97State" and tr
      using True that by (subst in_cb_loop.simps) auto
    then show ?thesis using True by (intro exI [of _ 0] exI [of _ "[]"] exI [of _ b]) simp
  next
    case False
    define to_copy where "to_copy = audio_MIN temp sizeof_buf"
    define acq where "acq = fst (AUD_read b to_copy)"
    define b1 where "b1 = snd (AUD_read b to_copy)"
    have tc: "to_copy \<le> temp" "to_copy \<le> sizeof_buf" "to_copy \<noteq> 0"
      using False by (simp_all add: to_copy_def audio_MIN_le1 audio_MIN_le2 audio_MIN_nonzero sizeof_buf_nonzero)
    have acq: "acq \<le> to_copy" using ok tc(2) by (simp add: acq_def voice_contract_def)
    then have acq_temp: "acq \<le> temp" using tc(1) by simp
    have call: "AUD_read_call AUD_read to_copy s = (acq, s\<lparr>events := events s @ [Aud_read to_copy acq], backend := b1\<rparr>)"
      if "backend s = b" for s :: "'b MilkymistAC97State"
      using that by (simp add: AUD_read_call_def acq_def b1_def split: prod.split)
    show ?thesis
    proof (cases "acq = 0")
      case True
      have "in_cb_loop AUD_read s temp addr tr
          = Some (s\<lparr>events := events s @ [Aud_read to_copy acq], backend := b1\<rparr>, addr + 0, tr + 0)"
        if "backend s = b" for s :: "'b MilkymistAC97State" and tr
        using False True call [OF that] by (subst in_cb_loop.simps) (simp add: Let_def to_copy_def [symmetric])
      then show ?thesis using False True
        by (intro exI [of _ 0] exI [of _ "[Aud_read to_copy acq]"] exI [of _ b1])
           (simp add: to_copy_def acq_def)
    next
      case nz: False
      have unf: "in_cb_loop AUD_read s temp addr tr
          = in_cb_loop AUD_read
              (cpu_physical_memory_write addr acq (s\<lparr>events := events s @ [Aud_read to_copy acq], backend := b1\<rparr>))
              (temp - acq) (addr + acq) (tr + acq)"
        if "backend s = b" for s :: "'b MilkymistAC97State" and tr
        using False nz call [OF that] by (subst in_cb_loop.simps) (simp add: Let_def to_copy_def [symmetric])
      have "unat (temp - acq) < unat temp" using acq_temp nz by (rule word_decr)
      from less [OF this, of b1 "addr + acq"]
      obtain m evs b' where
        r: "\<And>s tr. backend s = b1 \<Longrightarrow> in_cb_loop AUD_read s (temp - acq) (addr + acq) tr
              = Some (s\<lparr>events := events s @ evs, backend := b'\<rparr>, addr + acq + m, tr + m)"
        and m: "m \<le> temp - acq"
        and bm: "bytes_moved Record evs = unat m" "bytes_moved Playback evs = 0" "pulses evs = []"
        by blast
      have le: "acq + m \<le> temp" and un: "unat (acq + m) = unat acq + unat m"
        using word_step [OF acq_temp m] by simp_all
      have nz': "acq + m \<noteq> 0" using un nz by (metis add_is_0 unat_eq_0)
      have "in_cb_loop AUD_read s temp addr tr
          = Some (s\<lparr>events := events s @ (Aud_read to_copy acq # Mem_write addr acq # evs), backend := b'\<rparr>,
                  addr + (acq + m), tr + (acq + m))"
        if "backend s = b" for s :: "'b MilkymistAC97State" and tr
        unfolding unf [OF that]
        by (subst r) (simp_all add: cpu_physical_memory_write_def add.assoc)
      then show ?thesis
        using False nz nz' le un bm
        by (intro exI [of _ "acq + m"] exI [of _ "Aud_read to_copy acq # Mem_write addr acq # evs"] exI [of _ b'])
           (simp add: to_copy_def [symmetric] acq_def [symmetric])
    qed
  qed
qed

lemma out_cb_loop_run:
  fixes AUD_write :: "'b voice_fn"
  assumes ok: "voice_contract AUD_write"
  shows "\<exists>m evs b'.
          (\<forall>s tr. backend s = b \<longrightarrow> out_cb_loop AUD_write s temp addr tr
            = Some (s\<lparr>events := events s @ evs, backend := b'\<rparr>, addr + m, tr + m))
          \<and> m \<le> temp
          \<and> bytes_moved Playback evs = unat m \<and> bytes_moved Record evs = 0
          \<and> pulses evs = []
          \<and> (temp = 0 \<longrightarrow> evs = [] \<and> b' = b)
          \<and> (temp \<noteq> 0 \<longrightarrow>
                Aud_write (audio_MIN temp sizeof_buf) (fst (AUD_write b (audio_MIN temp sizeof_buf))) \<in> set evs
                \<and> (m = 0) = (fst (AUD_write b (audio_MIN temp sizeof_buf)) = 0))"
proof (induction "unat temp" arbitrary: b temp addr rule: less_induct)
  case less
  show ?case
  proof (cases "temp = 0")
    case True
    have "out_cb_loop AUD_write s temp addr tr = Some (s\<lparr>events := events s @ [], backend := b\<rparr>, addr + 0, tr + 0)"
      if "backend s = b" for s :: "'b MilkymistAC97State" and tr
      using True that by (subst out_cb_loop.simps) auto
    then show ?thesis using True by (intro exI [of _ 0] exI [of _ "[]"] exI [of _ b]) simp
  next
    case False
    define to_copy where "to_copy = audio_MIN temp sizeof_buf"
    define acq where "acq = fst (AUD_write b to_copy)"
    define b1 where "b1 = snd (AUD_write b to_copy)"
    have tc: "to_copy \<le> temp" "to_copy \<le> sizeof_buf" "to_copy \<noteq> 0"
      using False by (simp_all add: to_copy_def audio_MIN_le1 audio_MIN_le2 audio_MIN_nonzero sizeof_buf_nonzero)
    have acq: "acq \<le> to_copy" using ok tc(2) by (simp add: acq_def voice_contract_def)
    then have acq_temp: "acq \<le> temp" using tc(1) by simp
    have call: "AUD_write_call AUD_write to_copy (cpu_physical_memory_read addr to_copy s)
        = (acq, s\<lparr>events := events s @ [Mem_read addr to_copy, Aud_write to_copy acq], backend := b1\<rparr>)"
      if "backend s = b" for s :: "'b MilkymistAC97State"
      using that by (simp add: AUD_write_call_def cpu_physical_memory_read_def acq_def b1_def split: prod.split)
    show ?thesis
    proof (cases "acq = 0")
      case True
      have "out_cb_loop AUD_write s temp addr tr
          = Some (s\<lparr>events := events s @ [Mem_read addr to_copy, Aud_write to_copy acq], backend := b1\<rparr>, addr + 0, tr + 0)"
        if "backend s = b" for s :: "'b MilkymistAC97State" and tr
        using False True call [OF that] by (subst out_cb_loop.simps) (simp add: Let_def to_copy_def [symmetric])
      then show ?thesis using False True
        by (intro exI [of _ 0] exI [of _ "[Mem_read addr to_copy, Aud_write to_copy acq]"] exI [of _ b1])
           (simp add: to_copy_def acq_def)
    next
      case nz: False
      have unf: "out_cb_loop AUD_write s temp addr tr
          = out_cb_loop AUD_write
              (s\<lparr>events := events s @ [Mem_read addr to_copy, Aud_write to_copy acq], backend := b1\<rparr>)
              (temp - acq) (addr + acq) (tr + acq)"
        if "backend s = b" for s :: "'b MilkymistAC97State" and tr
        using False nz call [OF that] by (subst out_cb_loop.simps) (simp add: Let_def to_copy_def [symmetric])
      have "unat (temp - acq) < unat temp" using acq_temp nz by (rule word_decr)
      from less [OF this, of b1 "addr + acq"]
      obtain m evs b' where
        r: "\<And>s tr. backend s = b1 \<Longrightarrow> out_cb_loop AUD_write s (temp - acq) (addr + acq) tr
              = Some (s\<lparr>events := events s @ evs, backend := b'\<rparr>, addr + acq + m, tr + m)"
        and m: "m \<le> temp - acq"
        and bm: "bytes_moved Playback evs = unat m" "bytes_moved Record evs = 0" "pulses evs = []"
        by blast
      have le: "acq + m \<le> temp" and un: "unat (acq + m) = unat acq + unat m"
        using word_step [OF acq_temp m] by simp_all
      have nz': "acq + m \<noteq> 0" using un nz by (metis add_is_0 unat_eq_0)
      have "out_cb_loop AUD_write s temp addr tr
          = Some (s\<lparr>events := events s @ (Mem_read addr to_copy # Aud_write to_copy acq # evs), backend := b'\<rparr>,
                  addr + (acq + m), tr + (acq + m))"
        if "backend s = b" for s :: "'b MilkymistAC97State" and tr
        unfolding unf [OF that]
        by (subst r) (simp_all add: add.assoc)
      then show ?thesis
        using False nz nz' le un bm
        by (intro exI [of _ "acq + m"] exI [of _ "Mem_read addr to_copy # Aud_write to_copy acq # evs"] exI [of _ b'])
           (simp add: to_copy_def [symmetric] acq_def [symmetric])
    qed
  qed
qed


subsection \<open>One callback\<close>

text \<open>
  What a callback does, given the two registers it reads: the bytes \<open>m\<close> it moves, the
  events \<open>evs\<close> of its loop and the backend state \<open>b'\<close> it leaves are fixed by the
  backend state, ADDR, REMAINING and the byte count alone.
\<close>

lemma in_cb_run:
  fixes AUD_read :: "'b voice_fn"
  assumes ok: "voice_contract AUD_read"
  shows "\<exists>m evs b'.
          m \<le> audio_MIN rem n
          \<and> bytes_moved Record evs = unat m \<and> bytes_moved Playback evs = 0
          \<and> pulses evs = []
          \<and> (audio_MIN rem n = 0 \<longrightarrow> evs = [] \<and> b' = b)
          \<and> (audio_MIN rem n \<noteq> 0 \<longrightarrow>
                Aud_read (audio_MIN (audio_MIN rem n) sizeof_buf)
                  (fst (AUD_read b (audio_MIN (audio_MIN rem n) sizeof_buf))) \<in> set evs
                \<and> (m = 0) = (fst (AUD_read b (audio_MIN (audio_MIN rem n) sizeof_buf)) = 0))
          \<and> (\<forall>s. backend s = b \<and> length (regs s) = R_MAX
                  \<and> regs s ! R_U_ADDR = addr \<and> regs s ! R_U_REMAINING = rem \<longrightarrow>
                ac97_in_cb AUD_read s n
                  = Some (s\<lparr>regs := (regs s)[R_U_ADDR := addr + m, R_U_REMAINING := rem - m],
                           events := events s @ evs
                             @ (if audio_MIN rem n \<noteq> 0 \<and> bit (regs s ! R_U_CTRL) 0 \<and> rem = m
                                then [Irq_pulse dmaw_irq] else []),
                           backend := b'\<rparr>))"
proof -
  define temp where "temp = audio_MIN rem n"
  from in_cb_loop_run [OF ok, of b temp addr]
  obtain m evs b' where
    run: "\<And>s tr. backend s = b \<Longrightarrow> in_cb_loop AUD_read s temp addr tr
            = Some (s\<lparr>events := events s @ evs, backend := b'\<rparr>, addr + m, tr + m)"
    and m: "m \<le> temp"
    and bm: "bytes_moved Record evs = unat m" "bytes_moved Playback evs = 0" "pulses evs = []"
    and z: "temp = 0 \<longrightarrow> evs = [] \<and> b' = b"
    and nz: "temp \<noteq> 0 \<longrightarrow>
                Aud_read (audio_MIN temp sizeof_buf) (fst (AUD_read b (audio_MIN temp sizeof_buf))) \<in> set evs
                \<and> (m = 0) = (fst (AUD_read b (audio_MIN temp sizeof_buf)) = 0)"
    by blast
  have cb: "ac97_in_cb AUD_read s n
      = Some (s\<lparr>regs := (regs s)[R_U_ADDR := addr + m, R_U_REMAINING := rem - m],
               events := events s @ evs
                 @ (if temp \<noteq> 0 \<and> bit (regs s ! R_U_CTRL) 0 \<and> rem = m
                    then [Irq_pulse dmaw_irq] else []),
               backend := b'\<rparr>)"
    if s: "backend s = b" "length (regs s) = R_MAX" "regs s ! R_U_ADDR = addr" "regs s ! R_U_REMAINING = rem"
    for s :: "'b MilkymistAC97State"
  proof (cases "temp = 0")
    case True
    with m z have "m = 0" "evs = []" "b' = b" by simp_all
    moreover have "ac97_in_cb AUD_read s n = Some s"
      using True s by (simp add: ac97_in_cb_def temp_def)
    moreover have "(regs s)[R_U_ADDR := addr + 0, R_U_REMAINING := rem - 0] = regs s"
      unfolding s(3,4) [symmetric] by simp
    ultimately show ?thesis using True s(1) by simp
  next
    case False
    show ?thesis
      using False s run [OF s(1), of 0]
      by (simp add: ac97_in_cb_def temp_def [symmetric] Let_def CTRL_EN_bit qemu_irq_pulse_def reg_defs)
  qed
  show ?thesis
    using m bm z nz cb unfolding temp_def
    by (intro exI [of _ m] exI [of _ evs] exI [of _ b']) blast
qed

lemma out_cb_run:
  fixes AUD_write :: "'b voice_fn"
  assumes ok: "voice_contract AUD_write"
  shows "\<exists>m evs b'.
          m \<le> audio_MIN rem n
          \<and> bytes_moved Playback evs = unat m \<and> bytes_moved Record evs = 0
          \<and> pulses evs = []
          \<and> (audio_MIN rem n = 0 \<longrightarrow> evs = [] \<and> b' = b)
          \<and> (audio_MIN rem n \<noteq> 0 \<longrightarrow>
                Aud_write (audio_MIN (audio_MIN rem n) sizeof_buf)
                  (fst (AUD_write b (audio_MIN (audio_MIN rem n) sizeof_buf))) \<in> set evs
                \<and> (m = 0) = (fst (AUD_write b (audio_MIN (audio_MIN rem n) sizeof_buf)) = 0))
          \<and> (\<forall>s. backend s = b \<and> length (regs s) = R_MAX
                  \<and> regs s ! R_D_ADDR = addr \<and> regs s ! R_D_REMAINING = rem \<longrightarrow>
                ac97_out_cb AUD_write s n
                  = Some (s\<lparr>regs := (regs s)[R_D_ADDR := addr + m, R_D_REMAINING := rem - m],
                           events := events s @ evs
                             @ (if audio_MIN rem n \<noteq> 0 \<and> bit (regs s ! R_D_CTRL) 0 \<and> rem = m
                                then [Irq_pulse dmar_irq] else []),
                           backend := b'\<rparr>))"
proof -
  define temp where "temp = audio_MIN rem n"
  from out_cb_loop_run [OF ok, of b temp addr]
  obtain m evs b' where
    run: "\<And>s tr. backend s = b \<Longrightarrow> out_cb_loop AUD_write s temp addr tr
            = Some (s\<lparr>events := events s @ evs, backend := b'\<rparr>, addr + m, tr + m)"
    and m: "m \<le> temp"
    and bm: "bytes_moved Playback evs = unat m" "bytes_moved Record evs = 0" "pulses evs = []"
    and z: "temp = 0 \<longrightarrow> evs = [] \<and> b' = b"
    and nz: "temp \<noteq> 0 \<longrightarrow>
                Aud_write (audio_MIN temp sizeof_buf) (fst (AUD_write b (audio_MIN temp sizeof_buf))) \<in> set evs
                \<and> (m = 0) = (fst (AUD_write b (audio_MIN temp sizeof_buf)) = 0)"
    by blast
  have cb: "ac97_out_cb AUD_write s n
      = Some (s\<lparr>regs := (regs s)[R_D_ADDR := addr + m, R_D_REMAINING := rem - m],
               events := events s @ evs
                 @ (if temp \<noteq> 0 \<and> bit (regs s ! R_D_CTRL) 0 \<and> rem = m
                    then [Irq_pulse dmar_irq] else []),
               backend := b'\<rparr>)"
    if s: "backend s = b" "length (regs s) = R_MAX" "regs s ! R_D_ADDR = addr" "regs s ! R_D_REMAINING = rem"
    for s :: "'b MilkymistAC97State"
  proof (cases "temp = 0")
    case True
    with m z have "m = 0" "evs = []" "b' = b" by simp_all
    moreover have "ac97_out_cb AUD_write s n = Some s"
      using True s by (simp add: ac97_out_cb_def temp_def)
    moreover have "(regs s)[R_D_ADDR := addr + 0, R_D_REMAINING := rem - 0] = regs s"
      unfolding s(3,4) [symmetric] by simp
    ultimately show ?thesis using True s(1) by simp
  next
    case False
    show ?thesis
      using False s run [OF s(1), of 0]
      by (simp add: ac97_out_cb_def temp_def [symmetric] Let_def CTRL_EN_bit qemu_irq_pulse_def reg_defs)
  qed
  show ?thesis
    using m bm z nz cb unfolding temp_def
    by (intro exI [of _ m] exI [of _ evs] exI [of _ b']) blast
qed

lemma voice_bytes_pulse [simp]: "voice_bytes ch (Irq_pulse l) = 0"
  by (cases ch) simp_all

lemma capacity_cb_run:
  fixes AUD_read AUD_write :: "'b voice_fn"
  assumes okr: "voice_contract AUD_read"
    and okw: "voice_contract AUD_write"
  shows "\<exists>m evs b'.
          m \<le> audio_MIN rem n
          \<and> bytes_moved ch evs = unat m \<and> (\<forall>c. c \<noteq> ch \<longrightarrow> bytes_moved c evs = 0)
          \<and> pulses evs = []
          \<and> (audio_MIN rem n = 0 \<longrightarrow> evs = [] \<and> b' = b)
          \<and> (audio_MIN rem n \<noteq> 0 \<longrightarrow>
                voice_call ch (audio_MIN (audio_MIN rem n) sizeof_buf)
                  (fst (voice_of AUD_read AUD_write ch b (audio_MIN (audio_MIN rem n) sizeof_buf))) \<in> set evs
                \<and> (m = 0) = (fst (voice_of AUD_read AUD_write ch b (audio_MIN (audio_MIN rem n) sizeof_buf)) = 0))
          \<and> (\<forall>s. backend s = b \<and> length (regs s) = R_MAX
                  \<and> regs s ! R_ADDR_of ch = addr \<and> regs s ! R_REMAINING_of ch = rem \<longrightarrow>
                capacity_cb AUD_read AUD_write ch s n
                  = Some (s\<lparr>regs := (regs s)[R_ADDR_of ch := addr + m, R_REMAINING_of ch := rem - m],
                           events := events s @ evs
                             @ (if audio_MIN rem n \<noteq> 0 \<and> bit (regs s ! R_CTRL_of ch) 0 \<and> rem = m
                                then [Irq_pulse (complete_irq ch)] else []),
                           backend := b'\<rparr>))"
proof (cases ch)
  case Playback
  have other: "(\<forall>c. c \<noteq> Playback \<longrightarrow> P c) = P Record" for P
    by (metis channel.exhaust channel.distinct(1))
  from out_cb_run [OF okw, of rem n b addr] show ?thesis
    unfolding Playback other capacity_cb_def voice_call_def voice_of_def R_ADDR_of_def
      R_REMAINING_of_def R_CTRL_of_def complete_irq_def channel.case .
next
  case Record
  have other: "(\<forall>c. c \<noteq> Record \<longrightarrow> P c) = P Playback" for P
    by (metis channel.exhaust channel.distinct(1))
  from in_cb_run [OF okr, of rem n b addr] show ?thesis
    unfolding Record other capacity_cb_def voice_call_def voice_of_def R_ADDR_of_def
      R_REMAINING_of_def R_CTRL_of_def complete_irq_def channel.case .
qed

lemma chan_regs:
  "R_ADDR_of ch < R_MAX" "R_REMAINING_of ch < R_MAX" "R_CTRL_of ch < R_MAX"
  "R_ADDR_of ch \<noteq> R_REMAINING_of c" "R_CTRL_of ch \<noteq> R_REMAINING_of c" "R_CTRL_of ch \<noteq> R_ADDR_of c"
  "R_REMAINING_of ch \<noteq> R_ADDR_of c" "R_REMAINING_of c \<noteq> R_CTRL_of ch" "R_ADDR_of c \<noteq> R_CTRL_of ch"
  by (cases ch; cases c; simp add: R_ADDR_of_def R_REMAINING_of_def R_CTRL_of_def reg_defs)+

lemma chan_regs_neq:
  "c \<noteq> ch \<Longrightarrow> R_ADDR_of ch \<noteq> R_ADDR_of c"
  "c \<noteq> ch \<Longrightarrow> R_REMAINING_of ch \<noteq> R_REMAINING_of c"
  by (cases ch; cases c; simp add: R_ADDR_of_def R_REMAINING_of_def R_CTRL_of_def reg_defs)+

lemma audio_MIN_zero_iff: "(audio_MIN a b = 0) = (a = 0 \<or> b = 0)"
  by (auto simp add: audio_MIN_def word_gt_0)

text \<open>One callback, seen from the state it runs on.\<close>

lemma capacity_cb_step:
  fixes AUD_read AUD_write :: "'b voice_fn"
  assumes okr: "voice_contract AUD_read"
    and okw: "voice_contract AUD_write"
    and len: "length (regs s) = R_MAX"
  shows "\<exists>s' m evs. capacity_cb AUD_read AUD_write ch s n = Some s'
          \<and> length (regs s') = R_MAX
          \<and> regs s' = (regs s)[R_ADDR_of ch := regs s ! R_ADDR_of ch + m,
                               R_REMAINING_of ch := regs s ! R_REMAINING_of ch - m]
          \<and> events s' = events s @ evs
          \<and> voice_in s' = voice_in s \<and> voice_out s' = voice_out s
          \<and> m \<le> regs s ! R_REMAINING_of ch \<and> m \<le> n
          \<and> bytes_moved ch evs = unat m \<and> (\<forall>c. c \<noteq> ch \<longrightarrow> bytes_moved c evs = 0)
          \<and> pulses evs = (if regs s ! R_REMAINING_of ch \<noteq> 0 \<and> bit (regs s ! R_CTRL_of ch) 0
                             \<and> regs s ! R_REMAINING_of ch = m
                           then [complete_irq ch] else [])"
proof -
  define rem where "rem = regs s ! R_REMAINING_of ch"
  define addr where "addr = regs s ! R_ADDR_of ch"
  from capacity_cb_run [OF okr okw, of rem n ch "backend s" addr]
  obtain m evs b' where
    m: "m \<le> audio_MIN rem n"
    and bm: "bytes_moved ch evs = unat m" "\<forall>c. c \<noteq> ch \<longrightarrow> bytes_moved c evs = 0" "pulses evs = []"
    and cb: "\<And>s'. backend s' = backend s \<and> length (regs s') = R_MAX
                  \<and> regs s' ! R_ADDR_of ch = addr \<and> regs s' ! R_REMAINING_of ch = rem \<Longrightarrow>
                capacity_cb AUD_read AUD_write ch s' n
                  = Some (s'\<lparr>regs := (regs s')[R_ADDR_of ch := addr + m, R_REMAINING_of ch := rem - m],
                           events := events s' @ evs
                             @ (if audio_MIN rem n \<noteq> 0 \<and> bit (regs s' ! R_CTRL_of ch) 0 \<and> rem = m
                                then [Irq_pulse (complete_irq ch)] else []),
                           backend := b'\<rparr>)"
    by blast
  have m1: "m \<le> rem" and m2: "m \<le> n"
    using m audio_MIN_le1 [of rem n] audio_MIN_le2 [of rem n] by simp_all
  have cond: "(audio_MIN rem n \<noteq> 0 \<and> bit (regs s ! R_CTRL_of ch) 0 \<and> rem = m)
      = (rem \<noteq> 0 \<and> bit (regs s ! R_CTRL_of ch) 0 \<and> rem = m)"
    using m2 by (auto simp add: audio_MIN_zero_iff)
  let ?p = "if rem \<noteq> 0 \<and> bit (regs s ! R_CTRL_of ch) 0 \<and> rem = m
            then [Irq_pulse (complete_irq ch)] else []"
  have "capacity_cb AUD_read AUD_write ch s n
      = Some (s\<lparr>regs := (regs s)[R_ADDR_of ch := addr + m, R_REMAINING_of ch := rem - m],
               events := events s @ evs @ ?p, backend := b'\<rparr>)"
    using cb [of s] len unfolding cond by (simp add: rem_def addr_def)
  then show ?thesis
    using len m1 m2 bm
    by (intro exI [of _ "s\<lparr>regs := (regs s)[R_ADDR_of ch := addr + m, R_REMAINING_of ch := rem - m],
               events := events s @ evs @ ?p, backend := b'\<rparr>"] exI [of _ m] exI [of _ "evs @ ?p"])
       (simp add: rem_def [symmetric] addr_def [symmetric])
qed

subsection \<open>Byte counts as C ints\<close>

lemma sint_nonneg_eq_uint:
  fixes n :: "32 word"
  assumes "0 \<le> sint n"
  shows "sint n = uint n"
proof -
  have nb: "\<not> bit (uint n) 31" using assms by (simp add: sint_uint)
  have "sint n = take_bit 32 (uint n)"
    using nb by (simp add: sint_uint signed_take_bit_eq_take_bit_minus)
  also have "\<dots> = uint n"
    using uint_lt2p [of n] by (simp add: take_bit_int_eq_self)
  finally show ?thesis .
qed

lemma min_zero_audio_MIN:
  fixes rem n :: "32 word"
  assumes "min (uint rem) (sint n) = 0"
  shows "audio_MIN rem n = 0"
proof -
  from assms have "uint rem = 0 \<or> sint n = 0" by (auto simp add: min_def split: if_splits)
  then have "rem = 0 \<or> n = 0" by (auto simp add: uint_0_iff signed_eq_0_iff)
  then show ?thesis by (simp add: audio_MIN_zero_iff)
qed

lemma min_pos_audio_MIN:
  fixes rem n :: "32 word"
  assumes "0 < min (uint rem) (sint n)"
  shows "audio_MIN rem n \<noteq> 0" "rem \<noteq> 0" "n \<noteq> 0"
proof -
  from assms have "uint rem \<noteq> 0" "sint n \<noteq> 0" by (auto simp add: min_def split: if_splits)
  then show "rem \<noteq> 0" "n \<noteq> 0" by auto
  then show "audio_MIN rem n \<noteq> 0" by (simp add: audio_MIN_zero_iff)
qed

lemma moved_le_min:
  fixes m rem n :: "32 word"
  assumes "m \<le> rem" "m \<le> n" "0 \<le> sint n"
  shows "int (unat m) \<le> min (uint rem) (sint n)"
proof -
  have "uint m \<le> uint rem" "uint m \<le> uint n"
    using assms(1,2) by (simp_all add: word_le_def)
  then show ?thesis using sint_nonneg_eq_uint [OF assms(3)] by simp
qed


subsection \<open>Sequences of callbacks\<close>

lemma capacity_cb_progress:
  fixes AUD_read AUD_write :: "'b voice_fn"
  assumes okr: "voice_contract AUD_read"
    and okw: "voice_contract AUD_write"
    and len: "length (regs s) = R_MAX"
  shows "\<exists>s' evs. capacity_cb AUD_read AUD_write c s n = Some s'
          \<and> length (regs s') = R_MAX
          \<and> events s' = events s @ evs
          \<and> bytes_moved ch evs + unat (regs s' ! R_REMAINING_of ch) = unat (regs s ! R_REMAINING_of ch)
          \<and> regs s' ! R_ADDR_of ch = regs s ! R_ADDR_of ch + of_nat (bytes_moved ch evs)
          \<and> (c = ch \<and> 0 \<le> sint n \<longrightarrow>
                int (bytes_moved ch evs) \<le> min (uint (regs s ! R_REMAINING_of ch)) (sint n))"
proof -
  from capacity_cb_step [OF okr okw len, of c n]
  obtain s' m evs where
    cb: "capacity_cb AUD_read AUD_write c s n = Some s'"
    and len': "length (regs s') = R_MAX"
    and r: "regs s' = (regs s)[R_ADDR_of c := regs s ! R_ADDR_of c + m,
                               R_REMAINING_of c := regs s ! R_REMAINING_of c - m]"
    and ev: "events s' = events s @ evs"
    and m: "m \<le> regs s ! R_REMAINING_of c" "m \<le> n"
    and bm: "bytes_moved c evs = unat m" "\<forall>c'. c' \<noteq> c \<longrightarrow> bytes_moved c' evs = 0"
    by blast
  have facts: "bytes_moved ch evs + unat (regs s' ! R_REMAINING_of ch) = unat (regs s ! R_REMAINING_of ch)
      \<and> regs s' ! R_ADDR_of ch = regs s ! R_ADDR_of ch + of_nat (bytes_moved ch evs)
      \<and> (c = ch \<and> 0 \<le> sint n \<longrightarrow>
                int (bytes_moved ch evs) \<le> min (uint (regs s ! R_REMAINING_of ch)) (sint n))"
  proof (cases "c = ch")
    case True
    have rm: "regs s' ! R_REMAINING_of ch = regs s ! R_REMAINING_of ch - m"
      unfolding r True using len chan_regs(2) [of ch] by simp
    have ad: "regs s' ! R_ADDR_of ch = regs s ! R_ADDR_of ch + m"
      unfolding r True using len chan_regs(1) [of ch] chan_regs(4) [of ch ch] by simp
    have sub: "unat (regs s ! R_REMAINING_of ch - m) = unat (regs s ! R_REMAINING_of ch) - unat m"
      using m(1) unfolding True by (rule unat_sub)
    have le: "unat m \<le> unat (regs s ! R_REMAINING_of ch)"
      using m(1) unfolding True by (simp add: word_le_nat_alt)
    show ?thesis
      using bm(1) le moved_le_min [OF m(1) m(2)] unfolding rm ad sub True by simp
  next
    case False
    then have z: "bytes_moved ch evs = 0" using bm(2) by simp
    have "regs s' ! R_REMAINING_of ch = regs s ! R_REMAINING_of ch"
      "regs s' ! R_ADDR_of ch = regs s ! R_ADDR_of ch"
      unfolding r using chan_regs(4,7) [of ch c] chan_regs_neq [OF False]
      by simp_all
    then show ?thesis using z False by simp
  qed
  show ?thesis
    using cb len' ev facts by (intro exI [of _ s'] exI [of _ evs]) simp
qed

lemma run_cbs_progress:
  fixes AUD_read AUD_write :: "'b voice_fn"
  assumes okr: "voice_contract AUD_read"
    and okw: "voice_contract AUD_write"
  shows "length (regs s) = R_MAX \<Longrightarrow>
         \<exists>s' evs. run_cbs AUD_read AUD_write s cs = Some s'
          \<and> length (regs s') = R_MAX
          \<and> events s' = events s @ evs
          \<and> bytes_moved ch evs + unat (regs s' ! R_REMAINING_of ch) = unat (regs s ! R_REMAINING_of ch)
          \<and> regs s' ! R_ADDR_of ch = regs s ! R_ADDR_of ch + of_nat (bytes_moved ch evs)"
proof (induction cs arbitrary: s)
  case Nil
  then show ?case by (intro exI [of _ s] exI [of _ "[]"]) simp
next
  case (Cons c cs)
  from capacity_cb_progress [OF okr okw Cons.prems, of "fst c" "snd c" ch]
  obtain s1 evs1 where
    cb: "capacity_cb AUD_read AUD_write (fst c) s (snd c) = Some s1"
    and len1: "length (regs s1) = R_MAX"
    and ev1: "events s1 = events s @ evs1"
    and rm1: "bytes_moved ch evs1 + unat (regs s1 ! R_REMAINING_of ch) = unat (regs s ! R_REMAINING_of ch)"
    and ad1: "regs s1 ! R_ADDR_of ch = regs s ! R_ADDR_of ch + of_nat (bytes_moved ch evs1)"
    by blast
  from Cons.IH [OF len1]
  obtain s2 evs2 where
    run: "run_cbs AUD_read AUD_write s1 cs = Some s2"
    and len2: "length (regs s2) = R_MAX"
    and ev2: "events s2 = events s1 @ evs2"
    and rm2: "bytes_moved ch evs2 + unat (regs s2 ! R_REMAINING_of ch) = unat (regs s1 ! R_REMAINING_of ch)"
    and ad2: "regs s2 ! R_ADDR_of ch = regs s1 ! R_ADDR_of ch + of_nat (bytes_moved ch evs2)"
    by blast
  show ?case
    using cb run len2 ev1 ev2 rm1 rm2 ad1 ad2
    by (intro exI [of _ s2] exI [of _ "evs1 @ evs2"]) simp
qed


section \<open>The DMA engine\<close>

text \<open>
  A capacity callback is called with a byte count, a C \<^verbatim>\<open>int\<close> that is not negative;
  the voices keep their contract (\<^const>\<open>voice_contract\<close>); the register array has its
  \<^verbatim>\<open>R_MAX\<close> entries. Each theorem names the ones it needs. The bytes moved on a channel
  are counted on the log (\<^const>\<open>bytes_moved\<close>), the interrupts by \<^const>\<open>pulses\<close>.
\<close>

text \<open>
  C1. For every sequence of capacity-callback invocations on a DMA channel with initial
  REMAINING = N and ADDR = A, each invocation moves at most min(REMAINING, available)
  bytes, the sum of the bytes moved never exceeds N, ADDR is advanced by exactly the
  bytes moved, REMAINING is decreased by exactly the same total, and REMAINING never
  goes below zero. Stated for the channel \<open>ch\<close>, after any sequence \<open>cs\<close> of callbacks (on
  either channel) and for one more callback on \<open>ch\<close> after it; the channel need not be
  enabled. Every callback of the sequence returns. ADDR is a 32-bit register, so its
  sum is the 32-bit one; REMAINING is read as a number, and its subtraction never wraps.
\<close>

theorem dma_progress:
  fixes AUD_read AUD_write :: "'b voice_fn"
  assumes okr: "voice_contract AUD_read"
    and okw: "voice_contract AUD_write"
    and len: "length (regs s) = R_MAX"
    and counts: "list_all (\<lambda>c. 0 \<le> sint (snd c)) cs"
    and n: "0 \<le> sint n"
  shows "\<exists>sk evs sn evn.
           run_cbs AUD_read AUD_write s cs = Some sk
         \<and> events sk = events s @ evs
         \<and> bytes_moved ch evs \<le> unat (regs s ! R_REMAINING_of ch)
         \<and> regs sk ! R_ADDR_of ch = regs s ! R_ADDR_of ch + of_nat (bytes_moved ch evs)
         \<and> unat (regs sk ! R_REMAINING_of ch) + bytes_moved ch evs = unat (regs s ! R_REMAINING_of ch)
         \<and> capacity_cb AUD_read AUD_write ch sk n = Some sn
         \<and> events sn = events sk @ evn
         \<and> int (bytes_moved ch evn) \<le> min (uint (regs sk ! R_REMAINING_of ch)) (sint n)
         \<and> regs sn ! R_ADDR_of ch = regs sk ! R_ADDR_of ch + of_nat (bytes_moved ch evn)
         \<and> unat (regs sn ! R_REMAINING_of ch) + bytes_moved ch evn = unat (regs sk ! R_REMAINING_of ch)
         \<and> bytes_moved ch (evs @ evn) \<le> unat (regs s ! R_REMAINING_of ch)"
proof -
  from run_cbs_progress [OF okr okw len, of cs ch]
  obtain sk evs where
    run: "run_cbs AUD_read AUD_write s cs = Some sk"
    and lenk: "length (regs sk) = R_MAX"
    and evk: "events sk = events s @ evs"
    and rmk: "bytes_moved ch evs + unat (regs sk ! R_REMAINING_of ch) = unat (regs s ! R_REMAINING_of ch)"
    and adk: "regs sk ! R_ADDR_of ch = regs s ! R_ADDR_of ch + of_nat (bytes_moved ch evs)"
    by blast
  from capacity_cb_progress [OF okr okw lenk, of ch n ch]
  obtain sn evn where
    cb: "capacity_cb AUD_read AUD_write ch sk n = Some sn"
    and evn: "events sn = events sk @ evn"
    and rmn: "bytes_moved ch evn + unat (regs sn ! R_REMAINING_of ch) = unat (regs sk ! R_REMAINING_of ch)"
    and adn: "regs sn ! R_ADDR_of ch = regs sk ! R_ADDR_of ch + of_nat (bytes_moved ch evn)"
    and bound: "int (bytes_moved ch evn) \<le> min (uint (regs sk ! R_REMAINING_of ch)) (sint n)"
    using n by blast
  show ?thesis
    using run evk rmk adk cb evn rmn adn bound
    by (intro exI [of _ sk] exI [of _ evs] exI [of _ sn] exI [of _ evn]) simp
qed

theorem dma_progress_witness:
  "voice_contract accept_all
   \<and> length (regs sample_state) = R_MAX
   \<and> list_all (\<lambda>c. 0 \<le> sint (snd c)) [(Playback, 4096 :: c_int), (Record, 4), (Playback, 4096)]
   \<and> 0 \<le> sint (100 :: c_int)
   \<and> (\<exists>sk evs sn evn.
          run_cbs accept_all accept_all sample_state [(Playback, 4096), (Record, 4), (Playback, 4096)] = Some sk
        \<and> events sk = events sample_state @ evs
        \<and> bytes_moved Playback evs \<le> 8192
        \<and> unat (regs sk ! R_REMAINING_of Playback) + bytes_moved Playback evs = 8192
        \<and> capacity_cb accept_all accept_all Playback sk 100 = Some sn
        \<and> events sn = events sk @ evn
        \<and> int (bytes_moved Playback evn) \<le> min (uint (regs sk ! R_REMAINING_of Playback)) 100
        \<and> bytes_moved Playback (evs @ evn) \<le> 8192)"
proof -
  have h1: "voice_contract accept_all"
    by (simp add: voice_contract_def accept_all_def)
  have h2: "length (regs sample_state) = R_MAX"
    by (simp add: sample_state_def R_MAX_def)
  have h3: "list_all (\<lambda>c. 0 \<le> sint (snd c)) [(Playback, 4096 :: c_int), (Record, 4), (Playback, 4096)]"
    by simp
  have h4: "0 \<le> sint (100 :: c_int)"
    by simp
  have N: "unat (regs sample_state ! R_REMAINING_of Playback) = 8192"
    by (simp add: sample_state_def R_REMAINING_of_def reg_defs)
  show ?thesis
    using h1 h2 h3 h4 dma_progress [OF h1 h1 h2 h3 h4, of Playback]
    unfolding N by fastforce
qed

text \<open>
  C2. A channel's completion interrupt line is pulsed by a capacity callback exactly
  once, and only when, after that callback's update, the channel's enable bit is still
  set and REMAINING equals exactly zero; a callback on a channel whose REMAINING is
  already zero pulses nothing. Playback pulses the DMA-read line, record the DMA-write
  line (\<^const>\<open>complete_irq\<close>), and no other line is pulsed.
\<close>

theorem completion_pulse:
  fixes AUD_read AUD_write :: "'b voice_fn"
  assumes okr: "voice_contract AUD_read"
    and okw: "voice_contract AUD_write"
    and len: "length (regs s) = R_MAX"
    and n: "0 \<le> sint n"
  shows "\<exists>s' evs. capacity_cb AUD_read AUD_write ch s n = Some s'
          \<and> events s' = events s @ evs
          \<and> pulses evs = (if regs s ! R_REMAINING_of ch \<noteq> 0 \<and> bit (regs s' ! R_CTRL_of ch) 0
                             \<and> regs s' ! R_REMAINING_of ch = 0
                           then [complete_irq ch] else [])
          \<and> (regs s ! R_REMAINING_of ch = 0 \<longrightarrow> pulses evs = [])"
proof -
  from capacity_cb_step [OF okr okw len, of ch n]
  obtain s' m evs where
    cb: "capacity_cb AUD_read AUD_write ch s n = Some s'"
    and r: "regs s' = (regs s)[R_ADDR_of ch := regs s ! R_ADDR_of ch + m,
                               R_REMAINING_of ch := regs s ! R_REMAINING_of ch - m]"
    and ev: "events s' = events s @ evs"
    and p: "pulses evs = (if regs s ! R_REMAINING_of ch \<noteq> 0 \<and> bit (regs s ! R_CTRL_of ch) 0
                             \<and> regs s ! R_REMAINING_of ch = m
                           then [complete_irq ch] else [])"
    by blast
  have c: "regs s' ! R_CTRL_of ch = regs s ! R_CTRL_of ch"
    unfolding r by (simp add: chan_regs)
  have z: "(regs s' ! R_REMAINING_of ch = 0) = (regs s ! R_REMAINING_of ch = m)"
    unfolding r using len chan_regs(2) [of ch] by auto
  show ?thesis
    using cb ev p by (intro exI [of _ s'] exI [of _ evs]) (simp add: c z)
qed

theorem completion_pulse_witness:
  "voice_contract accept_all
   \<and> length (regs sample_state) = R_MAX
   \<and> 0 \<le> sint (8192 :: c_int)
   \<and> (\<exists>s' evs. capacity_cb accept_all accept_all Playback sample_state 8192 = Some s'
          \<and> events s' = events sample_state @ evs
          \<and> pulses evs = (if regs sample_state ! R_REMAINING_of Playback \<noteq> 0
                             \<and> bit (regs s' ! R_CTRL_of Playback) 0
                             \<and> regs s' ! R_REMAINING_of Playback = 0
                           then [complete_irq Playback] else [])
          \<and> (regs sample_state ! R_REMAINING_of Playback = 0 \<longrightarrow> pulses evs = []))"
proof -
  have h1: "voice_contract accept_all"
    by (simp add: voice_contract_def accept_all_def)
  have h2: "length (regs sample_state) = R_MAX"
    by (simp add: sample_state_def R_MAX_def)
  have h3: "0 \<le> sint (8192 :: c_int)"
    by simp
  show ?thesis
    by (intro conjI h1 h2 h3 completion_pulse [OF h1 h1 h2 h3])
qed

text \<open>
  C5. For every capacity callback on a channel where min(REMAINING, available_or_free)
  equals zero, the callback performs no data movement, changes no register state and
  pulses no interrupt line: it returns the state it was given, log and backend state
  included, whatever the voices would do.
\<close>

theorem zero_capacity_callback:
  fixes AUD_read AUD_write :: "'b voice_fn"
  assumes "min (uint (regs s ! R_REMAINING_of ch)) (sint n) = 0"
  shows "capacity_cb AUD_read AUD_write ch s n = Some s"
  using min_zero_audio_MIN [OF assms]
  by (cases ch)
     (simp_all add: capacity_cb_def ac97_in_cb_def ac97_out_cb_def R_REMAINING_of_def)


theorem zero_capacity_callback_witness:
  "min (uint (regs sample_state ! R_REMAINING_of Record)) (sint (0 :: c_int)) = 0
   \<and> capacity_cb accept_all accept_all Record sample_state 0 = Some sample_state"
proof -
  have h: "min (uint (regs sample_state ! R_REMAINING_of Record)) (sint (0 :: c_int)) = 0"
    by (simp add: sample_state_def R_REMAINING_of_def reg_defs)
  show ?thesis
    using h zero_capacity_callback [OF h, of accept_all accept_all] by simp
qed

text \<open>
  C10. For every capacity callback with min(REMAINING, available) > 0, data is
  transferred and ADDR and REMAINING are updated even when the channel's enable bit is
  clear: the enable bit gates only the completion pulse. With the bit clear the voice is
  called for the first chunk, the bytes it moves (none only if that first call returns
  0) are added to ADDR and taken from REMAINING, and nothing is pulsed; and with any
  other value \<open>c\<close> in the control register the callback ends in the same state, but for
  \<open>c\<close> itself and the pulse.
\<close>

theorem enable_gates_only_the_pulse:
  fixes AUD_read AUD_write :: "'b voice_fn"
  assumes okr: "voice_contract AUD_read"
    and okw: "voice_contract AUD_write"
    and len: "length (regs s) = R_MAX"
    and pos: "0 < min (uint (regs s ! R_REMAINING_of ch)) (sint n)"
    and dis: "\<not> bit (regs s ! R_CTRL_of ch) 0"
  shows "\<exists>s' evs m. capacity_cb AUD_read AUD_write ch s n = Some s'
          \<and> events s' = events s @ evs
          \<and> voice_call ch (audio_MIN (audio_MIN (regs s ! R_REMAINING_of ch) n) sizeof_buf)
               (fst (voice_of AUD_read AUD_write ch (backend s)
                  (audio_MIN (audio_MIN (regs s ! R_REMAINING_of ch) n) sizeof_buf))) \<in> set evs
          \<and> (m = 0) = (fst (voice_of AUD_read AUD_write ch (backend s)
                  (audio_MIN (audio_MIN (regs s ! R_REMAINING_of ch) n) sizeof_buf)) = 0)
          \<and> bytes_moved ch evs = unat m
          \<and> regs s' = (regs s)[R_ADDR_of ch := regs s ! R_ADDR_of ch + m,
                               R_REMAINING_of ch := regs s ! R_REMAINING_of ch - m]
          \<and> pulses evs = []
          \<and> (\<forall>c. capacity_cb AUD_read AUD_write ch (s\<lparr>regs := (regs s)[R_CTRL_of ch := c]\<rparr>) n
                = Some (s'\<lparr>regs := (regs s')[R_CTRL_of ch := c],
                           events := events s'
                             @ (if bit c 0 \<and> regs s' ! R_REMAINING_of ch = 0
                                then [Irq_pulse (complete_irq ch)] else [])\<rparr>))"
proof -
  define rem where "rem = regs s ! R_REMAINING_of ch"
  define addr where "addr = regs s ! R_ADDR_of ch"
  define tc where "tc = audio_MIN (audio_MIN rem n) sizeof_buf"
  have temp: "audio_MIN rem n \<noteq> 0"
    using pos min_pos_audio_MIN(1) [of rem n] by (simp add: rem_def)
  from capacity_cb_run [OF okr okw, of rem n ch "backend s" addr]
  obtain m evs b' where
    bm: "bytes_moved ch evs = unat m" "pulses evs = []"
    and call: "voice_call ch tc (fst (voice_of AUD_read AUD_write ch (backend s) tc)) \<in> set evs"
      "(m = 0) = (fst (voice_of AUD_read AUD_write ch (backend s) tc) = 0)"
    and cb: "\<And>s'. backend s' = backend s \<and> length (regs s') = R_MAX
                  \<and> regs s' ! R_ADDR_of ch = addr \<and> regs s' ! R_REMAINING_of ch = rem \<Longrightarrow>
                capacity_cb AUD_read AUD_write ch s' n
                  = Some (s'\<lparr>regs := (regs s')[R_ADDR_of ch := addr + m, R_REMAINING_of ch := rem - m],
                           events := events s' @ evs
                             @ (if audio_MIN rem n \<noteq> 0 \<and> bit (regs s' ! R_CTRL_of ch) 0 \<and> rem = m
                                then [Irq_pulse (complete_irq ch)] else []),
                           backend := b'\<rparr>)"
    using temp unfolding tc_def by blast
  define s' where "s' = s\<lparr>regs := (regs s)[R_ADDR_of ch := addr + m, R_REMAINING_of ch := rem - m],
                          events := events s @ evs, backend := b'\<rparr>"
  have one: "capacity_cb AUD_read AUD_write ch s n = Some s'"
    using cb [of s] len dis by (simp add: s'_def rem_def addr_def)
  have swap: "((regs s)[R_CTRL_of ch := c])[R_ADDR_of ch := x, R_REMAINING_of ch := y]
      = ((regs s)[R_ADDR_of ch := x, R_REMAINING_of ch := y])[R_CTRL_of ch := c]" for c x y
    using chan_regs(5,6) [of ch ch]
    by (metis list_update_swap)
  have z: "(regs s' ! R_REMAINING_of ch = 0) = (rem = m)"
    using len chan_regs(2) [of ch] by (auto simp add: s'_def)
  have other: "capacity_cb AUD_read AUD_write ch (s\<lparr>regs := (regs s)[R_CTRL_of ch := c]\<rparr>) n
      = Some (s'\<lparr>regs := (regs s')[R_CTRL_of ch := c],
                 events := events s'
                   @ (if bit c 0 \<and> regs s' ! R_REMAINING_of ch = 0
                      then [Irq_pulse (complete_irq ch)] else [])\<rparr>)" for c
  proof -
    let ?sc = "s\<lparr>regs := (regs s)[R_CTRL_of ch := c]\<rparr>"
    have pre: "backend ?sc = backend s \<and> length (regs ?sc) = R_MAX
        \<and> regs ?sc ! R_ADDR_of ch = addr \<and> regs ?sc ! R_REMAINING_of ch = rem"
      using len chan_regs(5,6) [of ch ch] by (simp add: rem_def addr_def)
    have cc: "regs ?sc ! R_CTRL_of ch = c"
      using len chan_regs(3) [of ch] by simp
    show ?thesis
      unfolding cb [OF pre] z cc using temp by (simp add: s'_def swap)
  qed
  show ?thesis
    using one bm call other
    by (intro exI [of _ s'] exI [of _ evs] exI [of _ m])
       (simp add: s'_def rem_def [symmetric] addr_def [symmetric] tc_def [symmetric])
qed

theorem enable_gates_only_the_pulse_witness:
  "voice_contract accept_all
   \<and> length (regs sample_state) = R_MAX
   \<and> 0 < min (uint (regs sample_state ! R_REMAINING_of Record)) (sint (64 :: c_int))
   \<and> \<not> bit (regs sample_state ! R_CTRL_of Record) 0
   \<and> (\<exists>s' evs. \<exists>m :: c_int.
          capacity_cb accept_all accept_all Record sample_state 64 = Some s'
          \<and> events s' = events sample_state @ evs
          \<and> m \<noteq> 0 \<and> bytes_moved Record evs = unat m
          \<and> pulses evs = [])"
proof -
  have h1: "voice_contract accept_all"
    by (simp add: voice_contract_def accept_all_def)
  have h2: "length (regs sample_state) = R_MAX"
    by (simp add: sample_state_def R_MAX_def)
  have h3: "0 < min (uint (regs sample_state ! R_REMAINING_of Record)) (sint (64 :: c_int))"
    by (simp add: sample_state_def R_REMAINING_of_def reg_defs)
  have h4: "\<not> bit (regs sample_state ! R_CTRL_of Record) 0"
    by (simp add: sample_state_def R_CTRL_of_def reg_defs)
  have ans: "fst (voice_of accept_all accept_all Record (backend sample_state)
      (audio_MIN (audio_MIN (regs sample_state ! R_REMAINING_of Record) 64) sizeof_buf)) \<noteq> 0"
    by (simp add: voice_of_def accept_all_def audio_MIN_def sizeof_buf_def sample_state_def
        R_REMAINING_of_def reg_defs)
  from enable_gates_only_the_pulse [OF h1 h1 h2 h3 h4]
  obtain s' evs and m :: c_int where
    a: "capacity_cb accept_all accept_all Record sample_state 64 = Some s'"
    and b: "events s' = events sample_state @ evs"
    and c: "(m = 0) = (fst (voice_of accept_all accept_all Record (backend sample_state)
      (audio_MIN (audio_MIN (regs sample_state ! R_REMAINING_of Record) 64) sizeof_buf)) = 0)"
    and d: "bytes_moved Record evs = unat m" and e: "pulses evs = []"
    by (elim exE conjE) (rule that)
  have "m \<noteq> 0" using c ans by simp
  with a b d e have "\<exists>s' evs. \<exists>m :: c_int.
          capacity_cb accept_all accept_all Record sample_state 64 = Some s'
          \<and> events s' = events sample_state @ evs
          \<and> m \<noteq> 0 \<and> bytes_moved Record evs = unat m
          \<and> pulses evs = []"
    by blast
  then show ?thesis
    using h1 h2 h3 h4 by (intro conjI)
qed

section \<open>The end-to-end scenario\<close>

text \<open>
  Playback at 0x1000 with 8192 bytes remaining, enabled; three callbacks offering 4096,
  4096 and 100 bytes to a voice that takes all it is offered. ADDR goes
  0x1000, 0x2000, 0x3000, REMAINING 8192, 4096, 0; the completion line is pulsed once,
  after the second callback; the third callback does nothing.
\<close>

lemma playback_scenario:
  "run_cbs accept_all accept_all sample_state [(Playback, 4096), (Playback, 4096), (Playback, 100)]
   = Some \<lparr>regs = [2, 1, 2, 3, 1, 12288, 0, 7, 0, 36864, 10],
      voice_in = True, voice_out = False,
      events = [Mem_read 4096 4096, Aud_write 4096 4096,
                Mem_read 8192 4096, Aud_write 4096 4096, Irq_pulse dmar_irq],
      backend = ()\<rparr>"
  by (simp add: capacity_cb_def ac97_out_cb_def out_cb_loop.simps sample_state_def reg_defs
      bit_defs audio_MIN_def sizeof_buf_def Let_def AUD_write_call_def
      cpu_physical_memory_read_def accept_all_def qemu_irq_pulse_def)

text \<open>Record is not enabled: 10 bytes arrive in guest memory at 0x9000, REMAINING
  reaches 0, and no interrupt is pulsed.\<close>

lemma disabled_record_scenario:
  "capacity_cb accept_all accept_all Record sample_state 64
   = Some \<lparr>regs = [2, 1, 2, 3, 1, 4096, 8192, 7, 0, 36874, 0],
      voice_in = True, voice_out = False,
      events = [Aud_read 10 10, Mem_write 36864 10],
      backend = ()\<rparr>"
  by (simp add: capacity_cb_def ac97_in_cb_def in_cb_loop.simps sample_state_def reg_defs
      bit_defs audio_MIN_def sizeof_buf_def Let_def AUD_read_call_def
      cpu_physical_memory_write_def accept_all_def qemu_irq_pulse_def)

end
